theory Spec2Isabelle
  imports Main "HOL-Library.Word"
begin

unbundle bit_operations_syntax

section \<open>Machine types and raw memory helpers\<close>

type_synonym u8 = "8 word"
type_synonym u16 = "16 word"
type_synonym u32 = "32 word"

text \<open>
  A buffer is the list of bytes behind a pointer. \<open>memcpy dst off src n\<close> is
  \<^verbatim>\<open>memcpy(dst + off, src, n)\<close> (and \<^verbatim>\<open>memmove\<close>, whose result is the same
  because the source is read as it was before the call). The C calls are only
  defined when \<open>off + n \<le> length dst\<close> and \<open>n \<le> length src\<close>; the theorems that
  depend on buffer contents carry these bounds as hypotheses.
\<close>

definition memcpy :: "u8 list \<Rightarrow> nat \<Rightarrow> u8 list \<Rightarrow> nat \<Rightarrow> u8 list" where
  "memcpy dst off src n = take off dst @ take n src @ drop (off + n) dst"

section \<open>floppy_serial.h\<close>

datatype mac_serial_mode = MAC_SERIAL_READ | MAC_SERIAL_WRITE

section \<open>floppy_serial_handler.cpp: the fifo queue object and the handler\<close>

record FifoBuffer =
  fifoLen :: u16
  fifoData :: "u8 list"

text \<open>\<^verbatim>\<open>sizeof(fb->fifoData)\<close>\<close>

definition fifoCapacity :: nat where
  "fifoCapacity = 2000"

definition fifoBytesAvailable :: "FifoBuffer \<Rightarrow> u16" where
  "fifoBytesAvailable fb = fifoLen fb"

text \<open>
  \<open>fifoGetData fb buf len\<close> returns the queue, the caller's buffer and the
  number of bytes copied. \<^verbatim>\<open>MIN\<close> compares two \<^verbatim>\<open>uint16_t\<close>, so it is the
  unsigned minimum.
\<close>

definition fifoGetData :: "FifoBuffer \<Rightarrow> u8 list \<Rightarrow> u16 \<Rightarrow> FifoBuffer \<times> u8 list \<times> u16" where
  "fifoGetData fb buf len =
     (let dataToReturn = min (fifoLen fb) len;
          buf' = memcpy buf 0 (fifoData fb) (unat dataToReturn);
          data' = memcpy (fifoData fb) 0 (drop (unat dataToReturn) (fifoData fb))
                    (unat (fifoLen fb) - unat dataToReturn)
      in (fb\<lparr>fifoData := data', fifoLen := fifoLen fb - dataToReturn\<rparr>, buf', dataToReturn))"

text \<open>
  The test \<^verbatim>\<open>(fb->fifoLen + len) <= sizeof(fb->fifoData)\<close> adds two promoted
  \<^verbatim>\<open>uint16_t\<close>, so the sum does not wrap.
\<close>

definition fifoPutData :: "FifoBuffer \<Rightarrow> u8 list \<Rightarrow> u16 \<Rightarrow> FifoBuffer" where
  "fifoPutData fb buf len =
     (if unat (fifoLen fb) + unat len \<le> fifoCapacity
      then fb\<lparr>fifoData := memcpy (fifoData fb) (unat (fifoLen fb)) buf (unat len),
              fifoLen := fifoLen fb + len\<rparr>
      else fb)"

text \<open>
  The handler in its loopback build (\<^verbatim>\<open>MAC_SERIAL_LOOPBACK_TEST 1\<close>). The static
  queue is passed in and returned; the result is the return value, the
  caller's buffer and the queue.
\<close>

fun mac_serial_handler ::
  "u8 list \<Rightarrow> u16 \<Rightarrow> mac_serial_mode \<Rightarrow> FifoBuffer \<Rightarrow> u16 \<times> u8 list \<times> FifoBuffer" where
  "mac_serial_handler buffer buffer_size MAC_SERIAL_READ fifo =
     (let availData = fifoBytesAvailable fifo;
          (fifo', buffer', bytesRead) = fifoGetData fifo buffer buffer_size
      in (availData, buffer', fifo'))"
| "mac_serial_handler buffer buffer_size MAC_SERIAL_WRITE fifo =
     (0, buffer, fifoPutData fifo buffer buffer_size)"

section \<open>floppy_serial_bridge.cpp\<close>

subsection \<open>Constants and macros\<close>

definition MAC_SERIAL_KNOCK_SEQ :: "int list" where
  "MAC_SERIAL_KNOCK_SEQ = [0, 70, 85, 74, 73]"

definition MAC_SERIAL_REQUEST_TAG :: "u8 list" where
  "MAC_SERIAL_REQUEST_TAG = map of_char ''NDEV''"

definition MAC_SERIAL_REPLY_TAG :: "u8 list" where
  "MAC_SERIAL_REPLY_TAG = map of_char ''FUJI''"

definition MAC_SERIAL_HEADER_LEN :: nat where
  "MAC_SERIAL_HEADER_LEN = 12"

definition MAC_SERIAL_NEGATIVE_LBA :: u32 where
  "MAC_SERIAL_NEGATIVE_LBA = 0x007FFFFF"

definition CHARS_TO_UINT16 :: "u8 \<Rightarrow> u8 \<Rightarrow> u16" where
  "CHARS_TO_UINT16 a b = push_bit 8 (ucast a) OR (ucast b AND 0xFF)"

definition UINT16_HI_BYTE :: "u16 \<Rightarrow> u8" where
  "UINT16_HI_BYTE a = ucast (drop_bit 8 a AND 0xFF)"

definition UINT16_LO_BYTE :: "u16 \<Rightarrow> u8" where
  "UINT16_LO_BYTE a = ucast (a AND 0xFF)"

subsection \<open>Session state\<close>

datatype mac_serial_state_t =
    MAC_SERIAL_WAIT_KNOCK
  | MAC_SERIAL_WAIT_MAGIC_WRITE
  | MAC_SERIAL_WAIT_MAGIC_READ
  | MAC_SERIAL_WAIT_MAGIC_SECTOR

text \<open>
  The file-scope variables of the bridge, together with the handler's static
  queue. C zero-initialises them.
\<close>

record globals =
  mac_serial_state :: mac_serial_state_t
  mac_serial_knock :: u8
  mac_serial_drive :: u8
  mac_serial_sector :: u32
  handler_fifo :: FifoBuffer

definition initial_globals :: globals where
  "initial_globals =
     \<lparr>mac_serial_state = MAC_SERIAL_WAIT_KNOCK, mac_serial_knock = 0,
      mac_serial_drive = 0, mac_serial_sector = 0,
      handler_fifo = \<lparr>fifoLen = 0, fifoData = replicate 2000 0\<rparr>\<rparr>"

subsection \<open>Header codec\<close>

definition mac_serial_put_header :: "u8 list \<Rightarrow> u16 \<Rightarrow> u8 list" where
  "mac_serial_put_header buff len =
     buff[0 := MAC_SERIAL_REPLY_TAG ! 0,
          1 := MAC_SERIAL_REPLY_TAG ! 1,
          2 := MAC_SERIAL_REPLY_TAG ! 2,
          3 := MAC_SERIAL_REPLY_TAG ! 3,
          4 := 0,
          5 := 0,
          6 := UINT16_HI_BYTE len,
          7 := UINT16_LO_BYTE len,
          8 := 0,
          9 := 0,
          10 := 0,
          11 := 0]"

text \<open>
  \<^verbatim>\<open>mac_serial_get_header\<close> returns \<^verbatim>\<open>false\<close> and leaves \<^verbatim>\<open>*len\<close> alone, or
  returns \<^verbatim>\<open>true\<close> with \<^verbatim>\<open>*len\<close> set: \<open>None\<close> and \<open>Some len\<close>.
\<close>

definition mac_serial_get_header :: "u8 list \<Rightarrow> u16 option" where
  "mac_serial_get_header buff =
     (if take 4 buff \<noteq> MAC_SERIAL_REQUEST_TAG then None
      else Some (CHARS_TO_UINT16 (buff ! 6) (buff ! 7)))"

subsection \<open>Knock detection\<close>

text \<open>
  The comparison \<^verbatim>\<open>sector == mac_serial_knock_sequence[mac_serial_knock]\<close> converts
  the \<^verbatim>\<open>int\<close> element to \<^verbatim>\<open>uint32_t\<close>. The index is in bounds only while the
  counter is below 5.
\<close>

definition mac_serial_detect_knock_sequence :: "u32 \<Rightarrow> globals \<Rightarrow> bool \<times> globals" where
  "mac_serial_detect_knock_sequence sector g =
     (if sector = word_of_int (MAC_SERIAL_KNOCK_SEQ ! unat (mac_serial_knock g)) then
        (let k = mac_serial_knock g + 1 in
         if unat k = length MAC_SERIAL_KNOCK_SEQ
         then (True, g\<lparr>mac_serial_knock := 0\<rparr>)
         else (False, g\<lparr>mac_serial_knock := k\<rparr>))
      else (False, g\<lparr>mac_serial_knock := 0\<rparr>))"

subsection \<open>Magic sector I/O\<close>

text \<open>
  The result is the return value, the block buffer and the handler's queue;
  the tag buffer is only read. \<^verbatim>\<open>blkPtr + n\<close> is \<open>drop n blkPtr\<close>, and what the
  handler wrote there is put back behind the first \<open>n\<close> bytes.
\<close>

fun mac_serial_magic_sector_io ::
  "u8 list \<Rightarrow> u8 list \<Rightarrow> mac_serial_mode \<Rightarrow> FifoBuffer \<Rightarrow> bool \<times> u8 list \<times> FifoBuffer" where
  "mac_serial_magic_sector_io tagPtr blkPtr MAC_SERIAL_READ fifo =
     (let (availBytes, payload, fifo') =
            mac_serial_handler (drop MAC_SERIAL_HEADER_LEN blkPtr)
              (word_of_nat (512 - MAC_SERIAL_HEADER_LEN)) MAC_SERIAL_READ fifo;
          blkPtr' = take MAC_SERIAL_HEADER_LEN blkPtr @ payload
      in (True, mac_serial_put_header blkPtr' availBytes, fifo'))"
| "mac_serial_magic_sector_io tagPtr blkPtr MAC_SERIAL_WRITE fifo =
     (let inTags = mac_serial_get_header tagPtr;
          headerInTags = (inTags \<noteq> None)
      in case (if headerInTags then inTags else mac_serial_get_header blkPtr) of
           Some len \<Rightarrow>
             (let headerSize = (if headerInTags then 0 else MAC_SERIAL_HEADER_LEN);
                  len' = (if unat len > 512 - headerSize
                          then word_of_nat (512 - headerSize) else len);
                  (r, payload, fifo') =
                    mac_serial_handler (drop headerSize blkPtr) len' MAC_SERIAL_WRITE fifo
              in (True, take headerSize blkPtr @ payload, fifo'))
         | None \<Rightarrow> (False, blkPtr, fifo))"

subsection \<open>The entry point\<close>

record io_result =
  handled :: bool
  tagBuf :: "u8 list"
  blkBuf :: "u8 list"
  session :: globals

text \<open>
  The validation loop of the \<^verbatim>\<open>MAC_SERIAL_WAIT_MAGIC_WRITE\<close> case: the index of
  the first byte that differs from the repeated request tag, which the code
  only prints.
\<close>

definition magic_sector_rejected_at :: "u8 list \<Rightarrow> nat option" where
  "magic_sector_rejected_at blkPtr =
     find (\<lambda>i. MAC_SERIAL_REQUEST_TAG ! (i AND 3) \<noteq> blkPtr ! i) [0..<512]"

text \<open>
  The block under ``Listen for the knock sequence'': the detector runs, and a
  completed knock claims the drive and writes the zero-length header to the
  tags.
\<close>

definition listen_for_knock :: "u8 \<Rightarrow> u32 \<Rightarrow> u8 list \<Rightarrow> globals \<Rightarrow> u8 list \<times> globals" where
  "listen_for_knock drive sector tagPtr g =
     (let (complete, g') = mac_serial_detect_knock_sequence sector g in
      if complete
      then (mac_serial_put_header tagPtr 0,
            g'\<lparr>mac_serial_state := MAC_SERIAL_WAIT_MAGIC_WRITE,
               mac_serial_drive := drive,
               mac_serial_sector := 0\<rparr>)
      else (tagPtr, g'))"

text \<open>The \<^verbatim>\<open>switch (mac_serial_state)\<close> under ``Handle the current run state''.\<close>

definition handle_run_state ::
  "u8 \<Rightarrow> u32 \<Rightarrow> u8 list \<Rightarrow> u8 list \<Rightarrow> mac_serial_mode \<Rightarrow> globals \<Rightarrow> io_result" where
  "handle_run_state drive sector tagPtr blkPtr mode g =
     (case mac_serial_state g of
        MAC_SERIAL_WAIT_KNOCK \<Rightarrow>
          \<lparr>handled = False, tagBuf = tagPtr, blkBuf = blkPtr, session = g\<rparr>
      | MAC_SERIAL_WAIT_MAGIC_WRITE \<Rightarrow>
          if mode = MAC_SERIAL_WRITE \<and> drive = mac_serial_drive g then
            (let rejected = magic_sector_rejected_at blkPtr in
             \<lparr>handled = True, tagBuf = tagPtr, blkBuf = blkPtr,
              session = g\<lparr>mac_serial_sector := sector,
                          mac_serial_state := MAC_SERIAL_WAIT_MAGIC_READ\<rparr>\<rparr>)
          else \<lparr>handled = False, tagBuf = tagPtr, blkBuf = blkPtr, session = g\<rparr>
      | MAC_SERIAL_WAIT_MAGIC_READ \<Rightarrow>
          if mode = MAC_SERIAL_READ \<and> drive = mac_serial_drive g
             \<and> sector = mac_serial_sector g then
            \<lparr>handled = True,
             tagBuf = mac_serial_put_header tagPtr 8,
             blkBuf = blkPtr[0 := MAC_SERIAL_REPLY_TAG ! 0,
                             1 := MAC_SERIAL_REPLY_TAG ! 1,
                             2 := MAC_SERIAL_REPLY_TAG ! 2,
                             3 := MAC_SERIAL_REPLY_TAG ! 3,
                             4 := ucast (drop_bit 24 (mac_serial_sector g AND 0xFF000000)),
                             5 := ucast (drop_bit 16 (mac_serial_sector g AND 0x00FF0000)),
                             6 := ucast (drop_bit 8 (mac_serial_sector g AND 0x0000FF00)),
                             7 := ucast (drop_bit 0 (mac_serial_sector g AND 0x000000FF))],
             session = g\<lparr>mac_serial_state := MAC_SERIAL_WAIT_MAGIC_SECTOR\<rparr>\<rparr>
          else \<lparr>handled = False, tagBuf = tagPtr, blkBuf = blkPtr, session = g\<rparr>
      | MAC_SERIAL_WAIT_MAGIC_SECTOR \<Rightarrow>
          if drive = mac_serial_drive g \<and> sector = mac_serial_sector g then
            (let (r, blkPtr', fifo') = mac_serial_magic_sector_io tagPtr blkPtr mode (handler_fifo g)
             in \<lparr>handled = r, tagBuf = tagPtr, blkBuf = blkPtr', session = g\<lparr>handler_fifo := fifo'\<rparr>\<rparr>)
          else \<lparr>handled = False, tagBuf = tagPtr, blkBuf = blkPtr, session = g\<rparr>)"

definition is_mac_serial_io ::
  "u8 \<Rightarrow> u32 \<Rightarrow> u8 list \<Rightarrow> u8 list \<Rightarrow> mac_serial_mode \<Rightarrow> globals \<Rightarrow> io_result" where
  "is_mac_serial_io drive sector tagPtr blkPtr mode g =
     (if sector = MAC_SERIAL_NEGATIVE_LBA then
        (let (r, blkPtr', fifo') = mac_serial_magic_sector_io tagPtr blkPtr mode (handler_fifo g);
             g' = g\<lparr>handler_fifo := fifo'\<rparr>;
             g'' = (if mac_serial_state g' \<noteq> MAC_SERIAL_WAIT_MAGIC_SECTOR
                    then g'\<lparr>mac_serial_state := MAC_SERIAL_WAIT_KNOCK\<rparr> else g')
         in \<lparr>handled = True, tagBuf = tagPtr, blkBuf = blkPtr', session = g''\<rparr>)
      else
        (let (tagPtr', g') = listen_for_knock drive sector tagPtr g
         in handle_run_state drive sector tagPtr' blkPtr mode g'))"

subsection \<open>Sequences of sector accesses\<close>

record sector_access =
  acc_drive :: u8
  acc_sector :: u32
  acc_tags :: "u8 list"
  acc_block :: "u8 list"
  acc_mode :: mac_serial_mode

definition access :: "globals \<Rightarrow> sector_access \<Rightarrow> globals" where
  "access g a =
     session (is_mac_serial_io (acc_drive a) (acc_sector a) (acc_tags a) (acc_block a)
                (acc_mode a) g)"

definition run :: "globals \<Rightarrow> sector_access list \<Rightarrow> globals" where
  "run g accs = foldl access g accs"

text \<open>
  The disk I/O path calls the bridge once per sector access, with a tag
  buffer and a block buffer of its own. \<open>sector_read\<close> and \<open>sector_write\<close> are
  such accesses with zeroed tags.
\<close>

definition sector_read :: "u8 \<Rightarrow> u32 \<Rightarrow> sector_access" where
  "sector_read drive sector =
     \<lparr>acc_drive = drive, acc_sector = sector, acc_tags = replicate 12 0,
      acc_block = replicate 512 0, acc_mode = MAC_SERIAL_READ\<rparr>"

definition sector_write :: "u8 \<Rightarrow> u32 \<Rightarrow> u8 list \<Rightarrow> sector_access" where
  "sector_write drive sector block =
     \<lparr>acc_drive = drive, acc_sector = sector, acc_tags = replicate 12 0,
      acc_block = block, acc_mode = MAC_SERIAL_WRITE\<rparr>"

subsection \<open>Reading the queue\<close>

text \<open>
  The bytes the queue holds are the first \<open>fifoLen\<close> bytes of its array. The
  array itself always has 2000 bytes, and the counter never exceeds that.
\<close>

definition fifoContents :: "FifoBuffer \<Rightarrow> u8 list" where
  "fifoContents fb = take (unat (fifoLen fb)) (fifoData fb)"

definition fifo_wf :: "FifoBuffer \<Rightarrow> bool" where
  "fifo_wf fb = (length (fifoData fb) = fifoCapacity \<and> unat (fifoLen fb) \<le> fifoCapacity)"

section \<open>Properties of the header codec\<close>

lemma mask8_u16: "(0xFF::u16) = mask 8"
  by (simp add: mask_eq_exp_minus_1)

lemma CHARS_TO_UINT16_bytes:
  "CHARS_TO_UINT16 (UINT16_HI_BYTE len) (UINT16_LO_BYTE len) = len"
  unfolding CHARS_TO_UINT16_def UINT16_HI_BYTE_def UINT16_LO_BYTE_def mask8_u16
  by (rule bit_word_eqI) (auto simp add: bit_simps)

lemma length_put_header [simp]: "length (mac_serial_put_header buff len) = length buff"
  by (simp add: mac_serial_put_header_def)

lemma put_header_nth:
  assumes "12 \<le> length buff"
  shows "mac_serial_put_header buff len ! 0 = 0x46"
    and "mac_serial_put_header buff len ! 1 = 0x55"
    and "mac_serial_put_header buff len ! 2 = 0x4A"
    and "mac_serial_put_header buff len ! 3 = 0x49"
    and "mac_serial_put_header buff len ! 4 = 0"
    and "mac_serial_put_header buff len ! 5 = 0"
    and "mac_serial_put_header buff len ! 6 = UINT16_HI_BYTE len"
    and "mac_serial_put_header buff len ! 7 = UINT16_LO_BYTE len"
    and "mac_serial_put_header buff len ! 8 = 0"
    and "mac_serial_put_header buff len ! 9 = 0"
    and "mac_serial_put_header buff len ! 10 = 0"
    and "mac_serial_put_header buff len ! 11 = 0"
proof -
  from assms have ne: "buff \<noteq> []" by auto
  show "mac_serial_put_header buff len ! 0 = 0x46"
    using ne by (simp add: mac_serial_put_header_def MAC_SERIAL_REPLY_TAG_def)
qed (use assms in \<open>simp_all add: mac_serial_put_header_def MAC_SERIAL_REPLY_TAG_def\<close>)

lemma put_header_beyond:
  "12 \<le> i \<Longrightarrow> mac_serial_put_header buff len ! i = buff ! i"
  by (simp add: mac_serial_put_header_def)

lemma take_nths:
  assumes "n \<le> length xs"
  shows "take n xs = map ((!) xs) [0..<n]"
proof -
  have "take n xs = take n (map ((!) xs) [0..<length xs])"
    by (simp add: map_nth)
  also have "\<dots> = map ((!) xs) (take n [0..<length xs])"
    by (simp add: take_map)
  also have "\<dots> = map ((!) xs) [0..<n]"
    using assms by simp
  finally show ?thesis .
qed

lemma upt4: "[0..<4] = [0, 1, 2, 3 :: nat]"
  by code_simp

lemma upt8: "[0..<8] = [0, 1, 2, 3, 4, 5, 6, 7 :: nat]"
  by code_simp

lemma upt12: "[0..<12] = [0, 1, 2, 3, 4, 5, 6, 7, 8, 9, 10, 11 :: nat]"
  by code_simp

lemma take4_eq:
  "4 \<le> length xs \<Longrightarrow> take 4 xs = [xs ! 0, xs ! 1, xs ! 2, xs ! 3]"
  by (simp add: take_nths upt4)

lemma put_header_marker:
  "12 \<le> length buff \<Longrightarrow> take 4 (mac_serial_put_header buff len) = MAC_SERIAL_REPLY_TAG"
  using put_header_nth(2) [of buff len]
  by (simp add: take4_eq put_header_nth MAC_SERIAL_REPLY_TAG_def)

lemma get_header_request_marker:
  "mac_serial_get_header (MAC_SERIAL_REQUEST_TAG @ xs) = Some (CHARS_TO_UINT16 (xs ! 2) (xs ! 3))"
  by (simp add: mac_serial_get_header_def MAC_SERIAL_REQUEST_TAG_def nth_append)

lemma get_header_reply_marker:
  "take 4 buff = MAC_SERIAL_REPLY_TAG \<Longrightarrow> mac_serial_get_header buff = None"
  by (simp add: mac_serial_get_header_def MAC_SERIAL_REPLY_TAG_def MAC_SERIAL_REQUEST_TAG_def)

text \<open>
  Claim C1 as stated: decoding the buffer that \<open>mac_serial_put_header\<close> produced is
  valid and returns the encoded length. It fails: the encoder writes the reply
  tag \<^verbatim>\<open>FUJI\<close> and the decoder accepts only the request tag \<^verbatim>\<open>NDEV\<close>, so the
  decoder rejects every encoded header, here the one for length 5.
\<close>

theorem C1_roundtrip_counterexample:
  "mac_serial_get_header (mac_serial_put_header (replicate 12 0) 5) \<noteq> Some 5"
  by code_simp

text \<open>
  Claim C1, amended: for every 16-bit length and every buffer of at least 12
  bytes, the encoded buffer starts with the reply tag and is therefore rejected
  by the decoder; the length field round-trips, since the big-endian 16-bit
  value at offsets 6 and 7 is the encoded length, and the decoder returns
  exactly that length once the first four bytes are the request tag.
\<close>

theorem C1_header_codec:
  assumes "12 \<le> length buff"
  shows "mac_serial_get_header (mac_serial_put_header buff len) = None
       \<and> take 4 (mac_serial_put_header buff len) = MAC_SERIAL_REPLY_TAG
       \<and> CHARS_TO_UINT16 (mac_serial_put_header buff len ! 6)
            (mac_serial_put_header buff len ! 7) = len
       \<and> mac_serial_get_header
            (MAC_SERIAL_REQUEST_TAG @ drop 4 (mac_serial_put_header buff len)) = Some len"
  using assms
  by (simp add: get_header_reply_marker put_header_marker put_header_nth
      CHARS_TO_UINT16_bytes get_header_request_marker)

theorem C1_header_codec_witness:
  "12 \<le> length (replicate 12 (0::u8))
   \<and> mac_serial_get_header (mac_serial_put_header (replicate 12 0) 0x1234) = None
   \<and> take 4 (mac_serial_put_header (replicate 12 0) 0x1234) = MAC_SERIAL_REPLY_TAG
   \<and> CHARS_TO_UINT16 (mac_serial_put_header (replicate 12 0) 0x1234 ! 6)
        (mac_serial_put_header (replicate 12 0) 0x1234 ! 7) = 0x1234
   \<and> mac_serial_get_header
        (MAC_SERIAL_REQUEST_TAG @ drop 4 (mac_serial_put_header (replicate 12 0) 0x1234))
      = Some 0x1234"
  using C1_header_codec [of "replicate 12 0" "0x1234"] by simp

section \<open>Properties of the byte queue\<close>

lemma unat_add_u16:
  fixes a b :: u16
  shows "unat a + unat b \<le> 2000 \<Longrightarrow> unat (a + b) = unat a + unat b"
  by (simp add: unat_word_ariths)

lemma fifoPutData_fits:
  assumes "fifo_wf fb" and "length data = unat len"
    and "unat (fifoLen fb) + length data \<le> fifoCapacity"
  shows "fifoContents (fifoPutData fb data len) = fifoContents fb @ data"
    and "unat (fifoLen (fifoPutData fb data len)) = unat (fifoLen fb) + length data"
    and "fifo_wf (fifoPutData fb data len)"
  using assms
  by (simp_all add: fifoPutData_def fifoContents_def fifo_wf_def memcpy_def fifoCapacity_def
      unat_add_u16)

lemma fifoPutData_overflow:
  "\<not> unat (fifoLen fb) + unat len \<le> fifoCapacity \<Longrightarrow> fifoPutData fb data len = fb"
  by (simp add: fifoPutData_def)

lemma unat_min_u16:
  fixes a b :: u16
  shows "unat (min a b) = min (unat a) (unat b)"
  by (simp add: min_def word_le_nat_alt)

lemma unat_sub_min_u16:
  fixes a b :: u16
  shows "unat (a - min a b) = unat a - min (unat a) (unat b)"
  by (simp add: unat_sub unat_min_u16)

lemma fifoGetData_unfold:
  "fifoGetData fb buf len =
     (fb\<lparr>fifoData := memcpy (fifoData fb) 0 (drop (unat (min (fifoLen fb) len)) (fifoData fb))
                         (unat (fifoLen fb) - unat (min (fifoLen fb) len)),
         fifoLen := fifoLen fb - min (fifoLen fb) len\<rparr>,
      memcpy buf 0 (fifoData fb) (unat (min (fifoLen fb) len)),
      min (fifoLen fb) len)"
  by (simp add: fifoGetData_def Let_def)

lemma fifoGetData_pop:
  assumes "fifo_wf fb" and "unat len \<le> length buf"
  shows "unat (snd (snd (fifoGetData fb buf len))) = min (unat (fifoLen fb)) (unat len)"
    and "take (min (unat (fifoLen fb)) (unat len)) (fst (snd (fifoGetData fb buf len)))
           = take (min (unat (fifoLen fb)) (unat len)) (fifoContents fb)"
    and "drop (min (unat (fifoLen fb)) (unat len)) (fst (snd (fifoGetData fb buf len)))
           = drop (min (unat (fifoLen fb)) (unat len)) buf"
    and "unat (fifoLen (fst (fifoGetData fb buf len)))
           = unat (fifoLen fb) - min (unat (fifoLen fb)) (unat len)"
    and "fifoContents (fst (fifoGetData fb buf len))
           = drop (min (unat (fifoLen fb)) (unat len)) (fifoContents fb)"
    and "fifo_wf (fst (fifoGetData fb buf len))"
proof -
  define n where "n = min (unat (fifoLen fb)) (unat len)"
  have n: "unat (min (fifoLen fb) len) = n"
    by (simp add: n_def unat_min_u16)
  have nle: "n \<le> unat (fifoLen fb)" "n \<le> length buf" "n \<le> length (fifoData fb)"
    "unat (fifoLen fb) \<le> length (fifoData fb)"
    using assms by (auto simp add: n_def fifo_wf_def)
  have l: "unat (fifoLen fb - min (fifoLen fb) len) = unat (fifoLen fb) - n"
    by (simp add: unat_sub_min_u16 n_def)
  show "unat (snd (snd (fifoGetData fb buf len))) = min (unat (fifoLen fb)) (unat len)"
    by (simp add: fifoGetData_unfold n n_def)
  show "take (min (unat (fifoLen fb)) (unat len)) (fst (snd (fifoGetData fb buf len)))
           = take (min (unat (fifoLen fb)) (unat len)) (fifoContents fb)"
    unfolding n_def [symmetric] using nle
    by (simp add: fifoGetData_unfold n memcpy_def fifoContents_def)
  show "drop (min (unat (fifoLen fb)) (unat len)) (fst (snd (fifoGetData fb buf len)))
           = drop (min (unat (fifoLen fb)) (unat len)) buf"
    unfolding n_def [symmetric] using nle
    by (simp add: fifoGetData_unfold n memcpy_def)
  show "unat (fifoLen (fst (fifoGetData fb buf len)))
           = unat (fifoLen fb) - min (unat (fifoLen fb)) (unat len)"
    unfolding n_def [symmetric] by (simp add: fifoGetData_unfold l)
  show "fifoContents (fst (fifoGetData fb buf len))
           = drop (min (unat (fifoLen fb)) (unat len)) (fifoContents fb)"
    unfolding n_def [symmetric] using nle
    by (simp add: fifoGetData_unfold n l memcpy_def fifoContents_def drop_take)
  have "length (fifoData (fst (fifoGetData fb buf len)))
          = min (length (fifoData fb) - n) (unat (fifoLen fb) - n)
            + (length (fifoData fb) - (unat (fifoLen fb) - n))"
    by (simp add: fifoGetData_unfold n memcpy_def)
  also have "\<dots> = length (fifoData fb)"
    using nle by arith
  finally have "length (fifoData (fst (fifoGetData fb buf len))) = fifoCapacity"
    using assms(1) by (simp add: fifo_wf_def)
  moreover have "unat (fifoLen (fst (fifoGetData fb buf len))) \<le> fifoCapacity"
    using assms(1) by (auto simp add: fifoGetData_unfold l fifo_wf_def)
  ultimately show "fifo_wf (fst (fifoGetData fb buf len))"
    by (simp add: fifo_wf_def)
qed


text \<open>
  Claim C8 as stated: a pop that follows a push of \<open>data\<close> onto an empty queue
  returns the first \<open>min (length data) pop_len\<close> bytes of \<open>data\<close>. It fails for
  a batch larger than the capacity: the push of 2001 bytes is dropped whole, and
  the pop of one byte returns no byte and leaves the caller's buffer as it was.
\<close>

theorem C8_overflow_counterexample:
  "snd (snd (fifoGetData
               (fifoPutData \<lparr>fifoLen = 0, fifoData = replicate 2000 0\<rparr> (replicate 2001 1) 2001)
               [0] 1)) = 0
   \<and> fst (snd (fifoGetData
               (fifoPutData \<lparr>fifoLen = 0, fifoData = replicate 2000 0\<rparr> (replicate 2001 1) 2001)
               [0] 1)) = [0]"
  by code_simp

text \<open>
  Claim C8, amended: on a well-formed queue, \<open>fifoPutData\<close> appends \<open>data\<close> exactly
  when the current length plus the length of \<open>data\<close> is at most 2000, and
  otherwise returns the queue unchanged; and when \<open>data\<close> has at most 2000
  bytes, a \<open>fifoGetData\<close> of \<open>pop_len\<close> bytes following its push onto an empty
  queue copies the first \<open>min (length data) pop_len\<close> bytes of \<open>data\<close>, in
  order, to the caller's buffer, returns that count, and leaves the remaining
  bytes of \<open>data\<close> in the queue with the length reduced by the count.
\<close>

theorem C8_byte_queue:
  "(fifo_wf fb \<and> length data = unat len \<longrightarrow>
      (if unat (fifoLen fb) + length data \<le> fifoCapacity
       then fifoContents (fifoPutData fb data len) = fifoContents fb @ data
          \<and> unat (fifoLen (fifoPutData fb data len)) = unat (fifoLen fb) + length data
       else fifoPutData fb data len = fb))
   \<and> (fifo_wf fb \<and> fifoLen fb = 0 \<and> length data = unat len \<and> length data \<le> fifoCapacity
       \<and> unat pop_len \<le> length buf \<longrightarrow>
      unat (snd (snd (fifoGetData (fifoPutData fb data len) buf pop_len)))
        = min (length data) (unat pop_len)
      \<and> take (min (length data) (unat pop_len))
           (fst (snd (fifoGetData (fifoPutData fb data len) buf pop_len)))
        = take (min (length data) (unat pop_len)) data
      \<and> unat (fifoLen (fst (fifoGetData (fifoPutData fb data len) buf pop_len)))
        = length data - min (length data) (unat pop_len)
      \<and> fifoContents (fst (fifoGetData (fifoPutData fb data len) buf pop_len))
        = drop (min (length data) (unat pop_len)) data)"
proof (intro conjI impI)
  assume a: "fifo_wf fb \<and> length data = unat len"
  show "if unat (fifoLen fb) + length data \<le> fifoCapacity
       then fifoContents (fifoPutData fb data len) = fifoContents fb @ data
          \<and> unat (fifoLen (fifoPutData fb data len)) = unat (fifoLen fb) + length data
       else fifoPutData fb data len = fb"
    using a fifoPutData_fits [of fb data len] fifoPutData_overflow [of fb len data]
    by simp
next
  assume a: "fifo_wf fb \<and> fifoLen fb = 0 \<and> length data = unat len
       \<and> length data \<le> fifoCapacity \<and> unat pop_len \<le> length buf"
  let ?q = "fifoPutData fb data len"
  have q: "fifoContents ?q = data" "unat (fifoLen ?q) = length data" "fifo_wf ?q"
    using a fifoPutData_fits [of fb data len] by (simp_all add: fifoContents_def)
  from a have b: "unat pop_len \<le> length buf" by simp
  note pop = fifoGetData_pop [OF q(3) b]
  show "unat (snd (snd (fifoGetData ?q buf pop_len))) = min (length data) (unat pop_len)"
    using pop(1) by (simp add: q)
  show "take (min (length data) (unat pop_len)) (fst (snd (fifoGetData ?q buf pop_len)))
        = take (min (length data) (unat pop_len)) data"
    using pop(2) by (simp add: q)
  show "unat (fifoLen (fst (fifoGetData ?q buf pop_len)))
        = length data - min (length data) (unat pop_len)"
    using pop(4) by (simp add: q)
  show "fifoContents (fst (fifoGetData ?q buf pop_len))
        = drop (min (length data) (unat pop_len)) data"
    using pop(5) by (simp add: q)
qed

theorem C8_byte_queue_witness:
  "fifo_wf \<lparr>fifoLen = 0, fifoData = replicate 2000 0\<rparr>
   \<and> length [1, 2, 3 :: u8] = unat (3 :: u16)
   \<and> length (replicate 2001 (7 :: u8)) = unat (2001 :: u16)
   \<and> unat (2 :: u16) \<le> length [0, 0 :: u8]
   \<and> fifoContents (fifoPutData \<lparr>fifoLen = 0, fifoData = replicate 2000 0\<rparr> [1, 2, 3] 3)
       = [1, 2, 3]
   \<and> fifoPutData \<lparr>fifoLen = 0, fifoData = replicate 2000 0\<rparr> (replicate 2001 7) 2001
       = \<lparr>fifoLen = 0, fifoData = replicate 2000 0\<rparr>
   \<and> unat (snd (snd (fifoGetData
         (fifoPutData \<lparr>fifoLen = 0, fifoData = replicate 2000 0\<rparr> [1, 2, 3] 3) [0, 0] 2))) = 2
   \<and> take 2 (fst (snd (fifoGetData
         (fifoPutData \<lparr>fifoLen = 0, fifoData = replicate 2000 0\<rparr> [1, 2, 3] 3) [0, 0] 2)))
       = [1, 2]
   \<and> fifoContents (fst (fifoGetData
         (fifoPutData \<lparr>fifoLen = 0, fifoData = replicate 2000 0\<rparr> [1, 2, 3] 3) [0, 0] 2))
       = [3]"
proof -
  let ?q = "\<lparr>fifoLen = 0, fifoData = replicate 2000 0\<rparr>"
  have wf: "fifo_wf ?q"
    by (simp add: fifo_wf_def fifoCapacity_def)
  have e: "fifoContents ?q = []"
    by (simp add: fifoContents_def)
  have m: "min (length [1, 2, 3 :: u8]) (unat (2 :: u16)) = 2"
    by simp
  have fits: "fifoContents (fifoPutData ?q [1, 2, 3] 3) = [1, 2, 3]"
    and pop: "unat (snd (snd (fifoGetData (fifoPutData ?q [1, 2, 3] 3) [0, 0] 2))) = 2"
       "take 2 (fst (snd (fifoGetData (fifoPutData ?q [1, 2, 3] 3) [0, 0] 2))) = [1, 2]"
       "fifoContents (fst (fifoGetData (fifoPutData ?q [1, 2, 3] 3) [0, 0] 2)) = [3]"
    using C8_byte_queue [of ?q "[1, 2, 3]" 3 2 "[0, 0]"] wf e
    unfolding m by (simp_all add: fifoCapacity_def)
  have over: "fifoPutData ?q (replicate 2001 7) 2001 = ?q"
    using C8_byte_queue [of ?q "replicate 2001 7" 2001 2 "[0, 0]"] wf
    by (simp add: fifoCapacity_def)
  show ?thesis
    using wf fits pop over by simp
qed

section \<open>Properties of the magic sector I/O\<close>

lemma clamp_u16:
  fixes len :: u16
  shows "512 < unat len \<Longrightarrow> min len 512 = 512"
    and "\<not> 512 < unat len \<Longrightarrow> min len 512 = len"
    and "500 < unat len \<Longrightarrow> min len 500 = 500"
    and "\<not> 500 < unat len \<Longrightarrow> min len 500 = len"
  by (auto simp add: min_def word_le_nat_alt)

text \<open>
  Claim C7: a write passed to \<open>mac_serial_magic_sector_io\<close> returns false exactly
  when neither the tag buffer nor the start of the block buffer decodes as a
  request header, and then nothing is forwarded. When the tags decode, the
  length is clamped to 512 and the block from offset 0 goes to the handler;
  when only the block decodes, the length is clamped to 500 and the block from
  offset 12 goes to the handler; both return true.
\<close>

theorem C7_write_rejection:
  "(fst (mac_serial_magic_sector_io tagPtr blkPtr MAC_SERIAL_WRITE fifo) = False)
     = (mac_serial_get_header tagPtr = None \<and> mac_serial_get_header blkPtr = None)
   \<and> (mac_serial_get_header tagPtr = None \<and> mac_serial_get_header blkPtr = None \<longrightarrow>
        mac_serial_magic_sector_io tagPtr blkPtr MAC_SERIAL_WRITE fifo = (False, blkPtr, fifo))
   \<and> (\<forall>len. mac_serial_get_header tagPtr = Some len \<longrightarrow>
        mac_serial_magic_sector_io tagPtr blkPtr MAC_SERIAL_WRITE fifo
          = (True, blkPtr,
             snd (snd (mac_serial_handler blkPtr (min len 512) MAC_SERIAL_WRITE fifo))))
   \<and> (\<forall>len. mac_serial_get_header tagPtr = None \<and> mac_serial_get_header blkPtr = Some len \<longrightarrow>
        mac_serial_magic_sector_io tagPtr blkPtr MAC_SERIAL_WRITE fifo
          = (True, blkPtr,
             snd (snd (mac_serial_handler (drop MAC_SERIAL_HEADER_LEN blkPtr) (min len 500)
                         MAC_SERIAL_WRITE fifo))))"
  by (cases "mac_serial_get_header tagPtr"; cases "mac_serial_get_header blkPtr")
     (simp_all add: Let_def MAC_SERIAL_HEADER_LEN_def clamp_u16)

theorem C7_write_rejection_witness:
  "mac_serial_get_header (replicate 12 0) = None
   \<and> mac_serial_get_header (replicate 512 0) = None
   \<and> mac_serial_magic_sector_io (replicate 12 0) (replicate 512 0) MAC_SERIAL_WRITE
         \<lparr>fifoLen = 0, fifoData = replicate 2000 0\<rparr>
       = (False, replicate 512 0, \<lparr>fifoLen = 0, fifoData = replicate 2000 0\<rparr>)
   \<and> mac_serial_get_header [78, 68, 69, 86, 0, 0, 2, 88, 0, 0, 0, 0] = Some 600
   \<and> mac_serial_magic_sector_io [78, 68, 69, 86, 0, 0, 2, 88, 0, 0, 0, 0]
         (replicate 512 0) MAC_SERIAL_WRITE \<lparr>fifoLen = 0, fifoData = replicate 2000 0\<rparr>
       = (True, replicate 512 0,
          snd (snd (mac_serial_handler (replicate 512 0) 512 MAC_SERIAL_WRITE
                      \<lparr>fifoLen = 0, fifoData = replicate 2000 0\<rparr>)))
   \<and> mac_serial_get_header [78, 68, 69, 86, 0, 0, 0, 3, 0, 0, 0, 0, 9, 9, 9] = Some 3
   \<and> mac_serial_magic_sector_io (replicate 12 0)
         [78, 68, 69, 86, 0, 0, 0, 3, 0, 0, 0, 0, 9, 9, 9] MAC_SERIAL_WRITE
         \<lparr>fifoLen = 0, fifoData = replicate 2000 0\<rparr>
       = (True, [78, 68, 69, 86, 0, 0, 0, 3, 0, 0, 0, 0, 9, 9, 9],
          snd (snd (mac_serial_handler [9, 9, 9] 3 MAC_SERIAL_WRITE
                      \<lparr>fifoLen = 0, fifoData = replicate 2000 0\<rparr>)))"
proof -
  let ?q = "\<lparr>fifoLen = 0, fifoData = replicate 2000 0\<rparr>"
  have n: "mac_serial_get_header (replicate 12 0) = None"
    "mac_serial_get_header (replicate 512 0) = None"
    by code_simp+
  have t: "mac_serial_get_header [78, 68, 69, 86, 0, 0, 2, 88, 0, 0, 0, 0] = Some 600"
    by code_simp
  have b: "mac_serial_get_header [78, 68, 69, 86, 0, 0, 0, 3, 0, 0, 0, 0, 9, 9, 9] = Some 3"
    by code_simp
  have m: "min (600 :: u16) 512 = 512" "min (3 :: u16) 500 = 3"
    by simp_all
  have "mac_serial_magic_sector_io (replicate 12 0) (replicate 512 0) MAC_SERIAL_WRITE ?q
          = (False, replicate 512 0, ?q)"
    using C7_write_rejection [of "replicate 12 0" "replicate 512 0" ?q] n by blast
  moreover have "mac_serial_magic_sector_io [78, 68, 69, 86, 0, 0, 2, 88, 0, 0, 0, 0]
         (replicate 512 0) MAC_SERIAL_WRITE ?q
       = (True, replicate 512 0,
          snd (snd (mac_serial_handler (replicate 512 0) 512 MAC_SERIAL_WRITE ?q)))"
    using C7_write_rejection [of "[78, 68, 69, 86, 0, 0, 2, 88, 0, 0, 0, 0]" "replicate 512 0" ?q]
      t m(1) by metis
  moreover have "mac_serial_magic_sector_io (replicate 12 0)
         [78, 68, 69, 86, 0, 0, 0, 3, 0, 0, 0, 0, 9, 9, 9] MAC_SERIAL_WRITE ?q
       = (True, [78, 68, 69, 86, 0, 0, 0, 3, 0, 0, 0, 0, 9, 9, 9],
          snd (snd (mac_serial_handler
                      (drop MAC_SERIAL_HEADER_LEN [78, 68, 69, 86, 0, 0, 0, 3, 0, 0, 0, 0, 9, 9, 9])
                      3 MAC_SERIAL_WRITE ?q)))"
    using C7_write_rejection [of "replicate 12 0"
        "[78, 68, 69, 86, 0, 0, 0, 3, 0, 0, 0, 0, 9, 9, 9]" ?q]
      n(1) b m(2) by metis
  ultimately show ?thesis
    using n t b by (simp add: MAC_SERIAL_HEADER_LEN_def)
qed

section \<open>Buffer and byte lemmas\<close>

lemma take12_eq:
  "12 \<le> length xs \<Longrightarrow>
   take 12 xs = [xs ! 0, xs ! 1, xs ! 2, xs ! 3, xs ! 4, xs ! 5, xs ! 6, xs ! 7,
                 xs ! 8, xs ! 9, xs ! 10, xs ! 11]"
  by (simp add: take_nths upt12)

lemma put_header_bytes:
  assumes "12 \<le> length buff"
  shows "take 12 (mac_serial_put_header buff len)
           = MAC_SERIAL_REPLY_TAG @ [0, 0, UINT16_HI_BYTE len, UINT16_LO_BYTE len, 0, 0, 0, 0]"
  using assms put_header_nth(2) [of buff len]
  by (simp add: take12_eq put_header_nth MAC_SERIAL_REPLY_TAG_def)

lemma put_header_drop: "drop 12 (mac_serial_put_header buff len) = drop 12 buff"
  by (simp add: mac_serial_put_header_def)

lemma length_bytes: "UINT16_HI_BYTE 8 = 0" "UINT16_LO_BYTE 8 = 8" "UINT16_HI_BYTE 0 = 0" "UINT16_LO_BYTE 0 = 0"
  by (simp_all add: UINT16_HI_BYTE_def UINT16_LO_BYTE_def)

lemma mask_u32:
  "(0xFF000000::u32) = push_bit 24 (mask 8)"
  "(0x00FF0000::u32) = push_bit 16 (mask 8)"
  "(0x0000FF00::u32) = push_bit 8 (mask 8)"
  "(0x000000FF::u32) = mask 8"
  by (simp_all add: mask_eq_exp_minus_1 push_bit_eq_mult)

lemma sector_bytes:
  fixes s :: u32
  shows "ucast (drop_bit 24 (s AND 0xFF000000)) = (ucast (drop_bit 24 s) :: u8)"
    and "ucast (drop_bit 16 (s AND 0x00FF0000)) = (ucast (drop_bit 16 s) :: u8)"
    and "ucast (drop_bit 8 (s AND 0x0000FF00)) = (ucast (drop_bit 8 s) :: u8)"
    and "ucast (drop_bit 0 (s AND 0x000000FF)) = (ucast s :: u8)"
  unfolding mask_u32
  by (rule bit_word_eqI; auto simp add: bit_simps)+

lemma big_endian_sector:
  fixes s :: u32
  shows "push_bit 24 (ucast (ucast (drop_bit 24 s) :: u8))
       OR push_bit 16 (ucast (ucast (drop_bit 16 s) :: u8))
       OR push_bit 8 (ucast (ucast (drop_bit 8 s) :: u8))
       OR ucast (ucast s :: u8) = s"
proof (rule bit_word_eqI)
  fix n
  assume "n < LENGTH(32)"
  then consider "n < 8" | "8 \<le> n" "n < 16" | "16 \<le> n" "n < 24" | "24 \<le> n" "n < 32"
    by fastforce
  then show "bit (push_bit 24 (ucast (ucast (drop_bit 24 s) :: u8))
       OR push_bit 16 (ucast (ucast (drop_bit 16 s) :: u8))
       OR push_bit 8 (ucast (ucast (drop_bit 8 s) :: u8))
       OR (ucast (ucast s :: u8) :: u32)) n = bit s n"
    by cases (auto simp add: bit_simps)
qed


section \<open>Properties of the handshake state machine\<close>

subsection \<open>The knock detector and the two stages of a call\<close>

lemma detect_mismatch:
  "sector \<noteq> word_of_int (MAC_SERIAL_KNOCK_SEQ ! unat (mac_serial_knock g)) \<Longrightarrow>
   mac_serial_detect_knock_sequence sector g = (False, g\<lparr>mac_serial_knock := 0\<rparr>)"
  by (simp add: mac_serial_detect_knock_sequence_def)

lemma detect_advance:
  "sector = word_of_int (MAC_SERIAL_KNOCK_SEQ ! unat (mac_serial_knock g)) \<Longrightarrow>
   unat (mac_serial_knock g + 1) \<noteq> 5 \<Longrightarrow>
   mac_serial_detect_knock_sequence sector g
     = (False, g\<lparr>mac_serial_knock := mac_serial_knock g + 1\<rparr>)"
  by (simp add: mac_serial_detect_knock_sequence_def MAC_SERIAL_KNOCK_SEQ_def)

lemma detect_complete:
  "mac_serial_knock g = 4 \<Longrightarrow>
   mac_serial_detect_knock_sequence 73 g = (True, g\<lparr>mac_serial_knock := 0\<rparr>)"
  by (simp add: mac_serial_detect_knock_sequence_def MAC_SERIAL_KNOCK_SEQ_def)

lemma detect_frame:
  "snd (mac_serial_detect_knock_sequence sector g)
     = g\<lparr>mac_serial_knock := mac_serial_knock (snd (mac_serial_detect_knock_sequence sector g))\<rparr>"
  by (simp add: mac_serial_detect_knock_sequence_def Let_def)

lemma listen_not_complete:
  "\<not> fst (mac_serial_detect_knock_sequence sector g) \<Longrightarrow>
   listen_for_knock drive sector tagPtr g
     = (tagPtr, snd (mac_serial_detect_knock_sequence sector g))"
  by (simp add: listen_for_knock_def split_beta)

lemma listen_complete:
  "fst (mac_serial_detect_knock_sequence sector g) \<Longrightarrow>
   listen_for_knock drive sector tagPtr g
     = (mac_serial_put_header tagPtr 0,
        (snd (mac_serial_detect_knock_sequence sector g))
          \<lparr>mac_serial_state := MAC_SERIAL_WAIT_MAGIC_WRITE,
           mac_serial_drive := drive, mac_serial_sector := 0\<rparr>)"
  by (simp add: listen_for_knock_def split_beta)

lemma is_mac_serial_io_regular:
  "sector \<noteq> MAC_SERIAL_NEGATIVE_LBA \<Longrightarrow>
   is_mac_serial_io drive sector tagPtr blkPtr mode g
     = handle_run_state drive sector (fst (listen_for_knock drive sector tagPtr g)) blkPtr mode
         (snd (listen_for_knock drive sector tagPtr g))"
  by (simp add: is_mac_serial_io_def split_beta)

lemma handle_run_state_knock [simp]:
  "mac_serial_knock (session (handle_run_state drive sector tagPtr blkPtr mode g))
     = mac_serial_knock g"
  by (simp add: handle_run_state_def split_beta split: mac_serial_state_t.split)

lemma access_regular:
  "acc_sector a \<noteq> MAC_SERIAL_NEGATIVE_LBA \<Longrightarrow>
   access g a
     = session (handle_run_state (acc_drive a) (acc_sector a)
         (fst (listen_for_knock (acc_drive a) (acc_sector a) (acc_tags a) g)) (acc_block a)
         (acc_mode a) (snd (listen_for_knock (acc_drive a) (acc_sector a) (acc_tags a) g)))"
  by (simp add: access_def is_mac_serial_io_regular)

lemma listen_knock:
  "mac_serial_knock (snd (listen_for_knock drive sector tagPtr g))
     = mac_serial_knock (snd (mac_serial_detect_knock_sequence sector g))"
  by (simp add: listen_for_knock_def split_beta)

lemma access_knock:
  "acc_sector a \<noteq> MAC_SERIAL_NEGATIVE_LBA \<Longrightarrow>
   mac_serial_knock (access g a)
     = mac_serial_knock (snd (mac_serial_detect_knock_sequence (acc_sector a) g))"
  by (simp add: access_regular listen_knock)

lemma access_sentinel_knock:
  "acc_sector a = MAC_SERIAL_NEGATIVE_LBA \<Longrightarrow>
   mac_serial_knock (access g a) = mac_serial_knock g"
  by (simp add: access_def is_mac_serial_io_def split_beta Let_def)

lemma detect_knock_bound:
  assumes "unat (mac_serial_knock g) < 5"
  shows "unat (mac_serial_knock (snd (mac_serial_detect_knock_sequence sector g))) < 5"
proof -
  have "unat (mac_serial_knock g + 1) = unat (mac_serial_knock g) + 1"
    using assms by (simp add: unat_word_ariths)
  then show ?thesis
    using assms by (simp add: mac_serial_detect_knock_sequence_def MAC_SERIAL_KNOCK_SEQ_def)
qed

lemma access_knock_bound:
  "unat (mac_serial_knock g) < 5 \<Longrightarrow> unat (mac_serial_knock (access g a)) < 5"
  by (cases "acc_sector a = MAC_SERIAL_NEGATIVE_LBA")
     (simp_all add: access_sentinel_knock access_knock detect_knock_bound)

lemma run_knock_bound:
  "unat (mac_serial_knock g) < 5 \<Longrightarrow> unat (mac_serial_knock (run g accs)) < 5"
  unfolding run_def
  by (induction accs arbitrary: g) (simp_all add: access_knock_bound)

lemma access_advance:
  assumes "acc_sector a = word_of_int (MAC_SERIAL_KNOCK_SEQ ! unat (mac_serial_knock g))"
    and "unat (mac_serial_knock g) < 4"
  shows "mac_serial_knock (access g a) = mac_serial_knock g + 1"
proof -
  have k: "unat (mac_serial_knock g + 1) = unat (mac_serial_knock g) + 1"
    using assms(2) by (simp add: unat_word_ariths)
  have "unat (mac_serial_knock g) \<in> {0, 1, 2, 3}"
    using assms(2) by auto
  then have "acc_sector a \<noteq> MAC_SERIAL_NEGATIVE_LBA"
    using assms(1) by (auto simp add: MAC_SERIAL_KNOCK_SEQ_def MAC_SERIAL_NEGATIVE_LBA_def)
  then show ?thesis
    using assms k by (simp add: access_knock detect_advance)
qed

lemma run4:
  assumes "mac_serial_knock g = 0"
    and "acc_sector a1 = 0" "acc_sector a2 = 70" "acc_sector a3 = 85" "acc_sector a4 = 74"
  shows "mac_serial_knock (run g [a1, a2, a3, a4]) = 4"
proof -
  have 1: "mac_serial_knock (access g a1) = 1"
    using access_advance [of a1 g] assms by (simp add: MAC_SERIAL_KNOCK_SEQ_def)
  have 2: "mac_serial_knock (access (access g a1) a2) = 2"
    using access_advance [of a2 "access g a1"] assms 1 by (simp add: MAC_SERIAL_KNOCK_SEQ_def)
  have 3: "mac_serial_knock (access (access (access g a1) a2) a3) = 3"
    using access_advance [of a3 "access (access g a1) a2"] assms 2
    by (simp add: MAC_SERIAL_KNOCK_SEQ_def)
  have 4: "mac_serial_knock (access (access (access (access g a1) a2) a3) a4) = 4"
    using access_advance [of a4 "access (access (access g a1) a2) a3"] assms 3
    by (simp add: MAC_SERIAL_KNOCK_SEQ_def)
  then show ?thesis by (simp add: run_def)
qed

lemma access_complete:
  assumes "mac_serial_knock g = 4" "acc_sector a = 73"
  shows "access g a =
           (if acc_mode a = MAC_SERIAL_WRITE
            then g\<lparr>mac_serial_state := MAC_SERIAL_WAIT_MAGIC_READ, mac_serial_knock := 0,
                   mac_serial_drive := acc_drive a, mac_serial_sector := 73\<rparr>
            else g\<lparr>mac_serial_state := MAC_SERIAL_WAIT_MAGIC_WRITE, mac_serial_knock := 0,
                   mac_serial_drive := acc_drive a, mac_serial_sector := 0\<rparr>)"
  using assms
  by (simp add: access_regular listen_complete detect_complete handle_run_state_def
      MAC_SERIAL_NEGATIVE_LBA_def)

lemma run_snoc: "run g (accs @ [a]) = access (run g accs) a"
  by (simp add: run_def)

lemma handle_pending_match:
  assumes "mac_serial_state g = MAC_SERIAL_WAIT_MAGIC_READ"
    and "drive = mac_serial_drive g" "sector = mac_serial_sector g"
  shows "handle_run_state drive sector tagPtr blkPtr MAC_SERIAL_READ g
     = \<lparr>handled = True,
        tagBuf = mac_serial_put_header tagPtr 8,
        blkBuf = blkPtr[0 := 0x46, 1 := 0x55, 2 := 0x4A, 3 := 0x49,
                        4 := ucast (drop_bit 24 sector),
                        5 := ucast (drop_bit 16 sector),
                        6 := ucast (drop_bit 8 sector),
                        7 := ucast sector],
        session = g\<lparr>mac_serial_state := MAC_SERIAL_WAIT_MAGIC_SECTOR\<rparr>\<rparr>"
  using assms sector_bytes [of sector]
  by (simp add: handle_run_state_def MAC_SERIAL_REPLY_TAG_def)

lemma handle_pending_other:
  assumes "mac_serial_state g = MAC_SERIAL_WAIT_MAGIC_READ"
    and "\<not> (mode = MAC_SERIAL_READ \<and> drive = mac_serial_drive g \<and> sector = mac_serial_sector g)"
  shows "handle_run_state drive sector tagPtr blkPtr mode g
     = \<lparr>handled = False, tagBuf = tagPtr, blkBuf = blkPtr, session = g\<rparr>"
  using assms by (auto simp add: handle_run_state_def)

lemma not_complete_frame:
  assumes "\<not> fst (mac_serial_detect_knock_sequence sector g)"
  shows "mac_serial_state (snd (mac_serial_detect_knock_sequence sector g)) = mac_serial_state g"
    and "mac_serial_drive (snd (mac_serial_detect_knock_sequence sector g)) = mac_serial_drive g"
    and "mac_serial_sector (snd (mac_serial_detect_knock_sequence sector g)) = mac_serial_sector g"
    and "handler_fifo (snd (mac_serial_detect_knock_sequence sector g)) = handler_fifo g"
  by (subst detect_frame, simp)+

lemma update8_bytes:
  assumes "8 \<le> length xs"
  shows "xs[0 := a, 1 := b, 2 := c, 3 := d, 4 := e, 5 := f, 6 := g, 7 := h]
           = [a, b, c, d, e, f, g, h] @ drop 8 xs"
proof -
  have "xs = take 8 xs @ drop 8 xs"
    by simp
  also have "take 8 xs = [xs ! 0, xs ! 1, xs ! 2, xs ! 3, xs ! 4, xs ! 5, xs ! 6, xs ! 7]"
    using assms by (simp add: take_nths upt8)
  finally obtain p0 p1 p2 p3 p4 p5 p6 p7
    where xs: "xs = [p0, p1, p2, p3, p4, p5, p6, p7] @ drop 8 xs"
    by blast
  show ?thesis
    by (subst (1) xs) (simp add: list_update_code)
qed


subsection \<open>Sentinel accesses\<close>

text \<open>
  Claim C5: an access to the sentinel address \<^verbatim>\<open>0x007FFFFF\<close> is handled in every
  phase. \<open>is_mac_serial_io\<close> passes the buffers to \<open>mac_serial_magic_sector_io\<close>,
  whose block buffer and queue are the ones returned, ignores its result and
  returns true; the tags are left alone; the phase stays
  \<^verbatim>\<open>MAC_SERIAL_WAIT_MAGIC_SECTOR\<close> if it was that before the call and is
  \<^verbatim>\<open>MAC_SERIAL_WAIT_KNOCK\<close> otherwise; nothing else of the session changes.
\<close>

theorem C5_sentinel_routing:
  "handled (is_mac_serial_io drive MAC_SERIAL_NEGATIVE_LBA tagPtr blkPtr mode g)
   \<and> tagBuf (is_mac_serial_io drive MAC_SERIAL_NEGATIVE_LBA tagPtr blkPtr mode g) = tagPtr
   \<and> blkBuf (is_mac_serial_io drive MAC_SERIAL_NEGATIVE_LBA tagPtr blkPtr mode g)
       = fst (snd (mac_serial_magic_sector_io tagPtr blkPtr mode (handler_fifo g)))
   \<and> session (is_mac_serial_io drive MAC_SERIAL_NEGATIVE_LBA tagPtr blkPtr mode g)
       = g\<lparr>handler_fifo := snd (snd (mac_serial_magic_sector_io tagPtr blkPtr mode (handler_fifo g))),
           mac_serial_state :=
             (if mac_serial_state g = MAC_SERIAL_WAIT_MAGIC_SECTOR
              then MAC_SERIAL_WAIT_MAGIC_SECTOR else MAC_SERIAL_WAIT_KNOCK)\<rparr>"
  by (simp add: is_mac_serial_io_def split_beta Let_def)

subsection \<open>The idle phase\<close>

text \<open>
  Claim C6: while the session is in \<^verbatim>\<open>MAC_SERIAL_WAIT_KNOCK\<close>, an access whose
  sector is neither the sentinel nor the next expected element of the knock
  sequence is not handled, and the tag buffer and the block buffer come back
  as they were passed in.
\<close>

theorem C6_idle_no_op:
  assumes "mac_serial_state g = MAC_SERIAL_WAIT_KNOCK"
    and "sector \<noteq> MAC_SERIAL_NEGATIVE_LBA"
    and "sector \<noteq> word_of_int (MAC_SERIAL_KNOCK_SEQ ! unat (mac_serial_knock g))"
  shows "\<not> handled (is_mac_serial_io drive sector tagPtr blkPtr mode g)
       \<and> tagBuf (is_mac_serial_io drive sector tagPtr blkPtr mode g) = tagPtr
       \<and> blkBuf (is_mac_serial_io drive sector tagPtr blkPtr mode g) = blkPtr"
  using assms
  by (simp add: is_mac_serial_io_regular listen_not_complete detect_mismatch
      handle_run_state_def)

theorem C6_idle_no_op_witness:
  "mac_serial_state initial_globals = MAC_SERIAL_WAIT_KNOCK
   \<and> (5 :: u32) \<noteq> MAC_SERIAL_NEGATIVE_LBA
   \<and> (5 :: u32) \<noteq> word_of_int (MAC_SERIAL_KNOCK_SEQ ! unat (mac_serial_knock initial_globals))
   \<and> \<not> handled (is_mac_serial_io 0 5 (replicate 12 0) (replicate 512 0) MAC_SERIAL_READ
                   initial_globals)
   \<and> tagBuf (is_mac_serial_io 0 5 (replicate 12 0) (replicate 512 0) MAC_SERIAL_READ
               initial_globals) = replicate 12 0
   \<and> blkBuf (is_mac_serial_io 0 5 (replicate 12 0) (replicate 512 0) MAC_SERIAL_READ
               initial_globals) = replicate 512 0"
proof -
  have h: "mac_serial_state initial_globals = MAC_SERIAL_WAIT_KNOCK"
    "(5 :: u32) \<noteq> MAC_SERIAL_NEGATIVE_LBA"
    "(5 :: u32) \<noteq> word_of_int (MAC_SERIAL_KNOCK_SEQ ! unat (mac_serial_knock initial_globals))"
    by (simp_all add: initial_globals_def MAC_SERIAL_NEGATIVE_LBA_def MAC_SERIAL_KNOCK_SEQ_def)
  show ?thesis
    using h C6_idle_no_op [OF h, of 0 "replicate 12 0" "replicate 512 0" MAC_SERIAL_READ]
    by simp
qed

subsection \<open>The claimed-drive phase\<close>

text \<open>
  Claim C3: while the session is in \<^verbatim>\<open>MAC_SERIAL_WAIT_MAGIC_WRITE\<close>, a write on the
  claimed drive whose sector is not the sentinel and which does not complete a
  knock is handled whatever the block holds: the sector is recorded as the magic
  sector and the phase becomes \<^verbatim>\<open>MAC_SERIAL_WAIT_MAGIC_READ\<close>. The comparison
  with the repeated request tag (\<open>magic_sector_rejected_at\<close>) has no effect on
  the result, and both buffers come back as they were passed in.
\<close>

theorem C3_claimed_drive_leniency:
  assumes "mac_serial_state g = MAC_SERIAL_WAIT_MAGIC_WRITE"
    and "drive = mac_serial_drive g"
    and "sector \<noteq> MAC_SERIAL_NEGATIVE_LBA"
    and "\<not> fst (mac_serial_detect_knock_sequence sector g)"
  shows "handled (is_mac_serial_io drive sector tagPtr blkPtr MAC_SERIAL_WRITE g)
       \<and> mac_serial_sector
           (session (is_mac_serial_io drive sector tagPtr blkPtr MAC_SERIAL_WRITE g)) = sector
       \<and> mac_serial_state
           (session (is_mac_serial_io drive sector tagPtr blkPtr MAC_SERIAL_WRITE g))
         = MAC_SERIAL_WAIT_MAGIC_READ
       \<and> tagBuf (is_mac_serial_io drive sector tagPtr blkPtr MAC_SERIAL_WRITE g) = tagPtr
       \<and> blkBuf (is_mac_serial_io drive sector tagPtr blkPtr MAC_SERIAL_WRITE g) = blkPtr"
proof -
  let ?g = "snd (mac_serial_detect_knock_sequence sector g)"
  have g: "mac_serial_state ?g = MAC_SERIAL_WAIT_MAGIC_WRITE" "mac_serial_drive ?g = drive"
    using assms(1,2) by (subst detect_frame, simp)+
  show ?thesis
    using assms(3,4) g
    by (simp add: is_mac_serial_io_regular listen_not_complete handle_run_state_def)
qed

theorem C3_claimed_drive_leniency_witness:
  "mac_serial_state
     (initial_globals\<lparr>mac_serial_state := MAC_SERIAL_WAIT_MAGIC_WRITE, mac_serial_drive := 2\<rparr>)
     = MAC_SERIAL_WAIT_MAGIC_WRITE
   \<and> 2 = mac_serial_drive
       (initial_globals\<lparr>mac_serial_state := MAC_SERIAL_WAIT_MAGIC_WRITE, mac_serial_drive := 2\<rparr>)
   \<and> (9 :: u32) \<noteq> MAC_SERIAL_NEGATIVE_LBA
   \<and> \<not> fst (mac_serial_detect_knock_sequence 9
       (initial_globals\<lparr>mac_serial_state := MAC_SERIAL_WAIT_MAGIC_WRITE, mac_serial_drive := 2\<rparr>))
   \<and> magic_sector_rejected_at (replicate 512 0) = Some 0
   \<and> handled (is_mac_serial_io 2 9 (replicate 12 0) (replicate 512 0) MAC_SERIAL_WRITE
       (initial_globals\<lparr>mac_serial_state := MAC_SERIAL_WAIT_MAGIC_WRITE, mac_serial_drive := 2\<rparr>))
   \<and> mac_serial_sector (session
       (is_mac_serial_io 2 9 (replicate 12 0) (replicate 512 0) MAC_SERIAL_WRITE
         (initial_globals\<lparr>mac_serial_state := MAC_SERIAL_WAIT_MAGIC_WRITE,
            mac_serial_drive := 2\<rparr>))) = 9
   \<and> mac_serial_state (session
       (is_mac_serial_io 2 9 (replicate 12 0) (replicate 512 0) MAC_SERIAL_WRITE
         (initial_globals\<lparr>mac_serial_state := MAC_SERIAL_WAIT_MAGIC_WRITE,
            mac_serial_drive := 2\<rparr>))) = MAC_SERIAL_WAIT_MAGIC_READ"
proof -
  let ?g = "initial_globals\<lparr>mac_serial_state := MAC_SERIAL_WAIT_MAGIC_WRITE,
              mac_serial_drive := 2\<rparr>"
  have h: "mac_serial_state ?g = MAC_SERIAL_WAIT_MAGIC_WRITE"
    "2 = mac_serial_drive ?g"
    "(9 :: u32) \<noteq> MAC_SERIAL_NEGATIVE_LBA"
    "\<not> fst (mac_serial_detect_knock_sequence 9 ?g)"
    by (simp_all add: initial_globals_def MAC_SERIAL_NEGATIVE_LBA_def
        mac_serial_detect_knock_sequence_def MAC_SERIAL_KNOCK_SEQ_def)
  have r: "magic_sector_rejected_at (replicate 512 0) = Some 0"
    by code_simp
  show ?thesis
    using h r C3_claimed_drive_leniency [OF h, of "replicate 12 0" "replicate 512 0"]
    by simp
qed

subsection \<open>The sector-pending phase\<close>

text \<open>
  Claim C4 as stated: in \<^verbatim>\<open>MAC_SERIAL_WAIT_MAGIC_READ\<close> a read of the remembered
  sector on the claimed drive is confirmed, and any other access leaves the
  phase alone and is not handled. It fails in two ways, both on sessions
  reached from the initial state by the knock \<open>0, 70, 85, 74\<close> and a write of
  sector 73, which leaves the session in this phase with magic sector 73 on
  drive 0. First, a sentinel access there is another access, yet it is handled
  and the phase becomes \<^verbatim>\<open>MAC_SERIAL_WAIT_KNOCK\<close>. Second, after four more
  accesses \<open>0, 70, 85, 74\<close> the session is still in this phase, and the read of
  the remembered sector 73 on drive 0 completes a knock: it is not handled, and
  the phase becomes \<^verbatim>\<open>MAC_SERIAL_WAIT_MAGIC_WRITE\<close>.
\<close>

theorem C4_sector_pending_counterexample:
  "mac_serial_state
     (run initial_globals
        [sector_read 0 0, sector_read 0 70, sector_read 0 85, sector_read 0 74,
         sector_write 0 73 (replicate 512 0)]) = MAC_SERIAL_WAIT_MAGIC_READ
   \<and> handled
       (is_mac_serial_io 0 MAC_SERIAL_NEGATIVE_LBA (replicate 12 0) (replicate 512 0)
          MAC_SERIAL_READ
          (run initial_globals
             [sector_read 0 0, sector_read 0 70, sector_read 0 85, sector_read 0 74,
              sector_write 0 73 (replicate 512 0)]))
   \<and> mac_serial_state
       (session
          (is_mac_serial_io 0 MAC_SERIAL_NEGATIVE_LBA (replicate 12 0) (replicate 512 0)
             MAC_SERIAL_READ
             (run initial_globals
                [sector_read 0 0, sector_read 0 70, sector_read 0 85, sector_read 0 74,
                 sector_write 0 73 (replicate 512 0)]))) = MAC_SERIAL_WAIT_KNOCK
   \<and> mac_serial_state
       (run initial_globals
          [sector_read 0 0, sector_read 0 70, sector_read 0 85, sector_read 0 74,
           sector_write 0 73 (replicate 512 0),
           sector_read 0 0, sector_read 0 70, sector_read 0 85, sector_read 0 74])
       = MAC_SERIAL_WAIT_MAGIC_READ
   \<and> mac_serial_drive
       (run initial_globals
          [sector_read 0 0, sector_read 0 70, sector_read 0 85, sector_read 0 74,
           sector_write 0 73 (replicate 512 0),
           sector_read 0 0, sector_read 0 70, sector_read 0 85, sector_read 0 74])
       = 0
   \<and> mac_serial_sector
       (run initial_globals
          [sector_read 0 0, sector_read 0 70, sector_read 0 85, sector_read 0 74,
           sector_write 0 73 (replicate 512 0),
           sector_read 0 0, sector_read 0 70, sector_read 0 85, sector_read 0 74])
       = 73
   \<and> \<not> handled
       (is_mac_serial_io 0 73 (replicate 12 0) (replicate 512 0) MAC_SERIAL_READ
          (run initial_globals
             [sector_read 0 0, sector_read 0 70, sector_read 0 85, sector_read 0 74,
              sector_write 0 73 (replicate 512 0),
              sector_read 0 0, sector_read 0 70, sector_read 0 85, sector_read 0 74]))
   \<and> mac_serial_state
       (session
          (is_mac_serial_io 0 73 (replicate 12 0) (replicate 512 0) MAC_SERIAL_READ
             (run initial_globals
                [sector_read 0 0, sector_read 0 70, sector_read 0 85, sector_read 0 74,
                 sector_write 0 73 (replicate 512 0),
                 sector_read 0 0, sector_read 0 70, sector_read 0 85, sector_read 0 74])))
       = MAC_SERIAL_WAIT_MAGIC_WRITE"
  by code_simp

text \<open>
  Claim C4, amended: while the session is in \<^verbatim>\<open>MAC_SERIAL_WAIT_MAGIC_READ\<close>, for an
  access whose sector is not the sentinel and which does not complete a knock:
  a read on the claimed drive at the remembered sector is handled, the first
  12 bytes of the tags are the reply header with length 8, the block starts
  with the reply tag followed by the remembered sector most significant byte
  first (by \<open>big_endian_sector\<close> these four bytes recombine to the sector), the
  rest of both buffers is untouched, and the phase becomes
  \<^verbatim>\<open>MAC_SERIAL_WAIT_MAGIC_SECTOR\<close>; any other such access is not handled and
  leaves the phase unchanged.
\<close>

theorem C4_sector_pending:
  assumes "mac_serial_state g = MAC_SERIAL_WAIT_MAGIC_READ"
    and "sector \<noteq> MAC_SERIAL_NEGATIVE_LBA"
    and "\<not> fst (mac_serial_detect_knock_sequence sector g)"
    and "12 \<le> length tagPtr" and "8 \<le> length blkPtr"
  shows "(mode = MAC_SERIAL_READ \<and> drive = mac_serial_drive g \<and> sector = mac_serial_sector g \<longrightarrow>
            handled (is_mac_serial_io drive sector tagPtr blkPtr mode g)
          \<and> take 12 (tagBuf (is_mac_serial_io drive sector tagPtr blkPtr mode g))
              = MAC_SERIAL_REPLY_TAG @ [0, 0, 0, 8, 0, 0, 0, 0]
          \<and> drop 12 (tagBuf (is_mac_serial_io drive sector tagPtr blkPtr mode g))
              = drop 12 tagPtr
          \<and> blkBuf (is_mac_serial_io drive sector tagPtr blkPtr mode g)
              = MAC_SERIAL_REPLY_TAG
                @ [ucast (drop_bit 24 (mac_serial_sector g)),
                   ucast (drop_bit 16 (mac_serial_sector g)),
                   ucast (drop_bit 8 (mac_serial_sector g)),
                   ucast (mac_serial_sector g)]
                @ drop 8 blkPtr
          \<and> mac_serial_state (session (is_mac_serial_io drive sector tagPtr blkPtr mode g))
              = MAC_SERIAL_WAIT_MAGIC_SECTOR)
       \<and> (\<not> (mode = MAC_SERIAL_READ \<and> drive = mac_serial_drive g
              \<and> sector = mac_serial_sector g) \<longrightarrow>
            \<not> handled (is_mac_serial_io drive sector tagPtr blkPtr mode g)
          \<and> mac_serial_state (session (is_mac_serial_io drive sector tagPtr blkPtr mode g))
              = MAC_SERIAL_WAIT_MAGIC_READ)"
proof -
  let ?g = "snd (mac_serial_detect_knock_sequence sector g)"
  have io: "is_mac_serial_io drive sector tagPtr blkPtr mode g
              = handle_run_state drive sector tagPtr blkPtr mode ?g"
    using assms(2,3) by (simp add: is_mac_serial_io_regular listen_not_complete)
  have g: "mac_serial_state ?g = MAC_SERIAL_WAIT_MAGIC_READ"
    "mac_serial_drive ?g = mac_serial_drive g" "mac_serial_sector ?g = mac_serial_sector g"
    using assms(1) not_complete_frame [OF assms(3)] by simp_all
  show ?thesis
  proof (intro conjI impI)
    assume m: "mode = MAC_SERIAL_READ \<and> drive = mac_serial_drive g \<and> sector = mac_serial_sector g"
    then have h: "is_mac_serial_io drive sector tagPtr blkPtr mode g
       = \<lparr>handled = True,
        tagBuf = mac_serial_put_header tagPtr 8,
        blkBuf = blkPtr[0 := 0x46, 1 := 0x55, 2 := 0x4A, 3 := 0x49,
                        4 := ucast (drop_bit 24 sector),
                        5 := ucast (drop_bit 16 sector),
                        6 := ucast (drop_bit 8 sector),
                        7 := ucast sector],
        session = ?g\<lparr>mac_serial_state := MAC_SERIAL_WAIT_MAGIC_SECTOR\<rparr>\<rparr>"
      unfolding io using handle_pending_match [of ?g drive sector tagPtr blkPtr] g by simp
    show "handled (is_mac_serial_io drive sector tagPtr blkPtr mode g)"
      by (simp add: h)
    show "take 12 (tagBuf (is_mac_serial_io drive sector tagPtr blkPtr mode g))
              = MAC_SERIAL_REPLY_TAG @ [0, 0, 0, 8, 0, 0, 0, 0]"
      using assms(4) by (simp add: h put_header_bytes length_bytes)
    show "drop 12 (tagBuf (is_mac_serial_io drive sector tagPtr blkPtr mode g)) = drop 12 tagPtr"
      by (simp add: h put_header_drop)
    show "blkBuf (is_mac_serial_io drive sector tagPtr blkPtr mode g)
              = MAC_SERIAL_REPLY_TAG
                @ [ucast (drop_bit 24 (mac_serial_sector g)),
                   ucast (drop_bit 16 (mac_serial_sector g)),
                   ucast (drop_bit 8 (mac_serial_sector g)),
                   ucast (mac_serial_sector g)]
                @ drop 8 blkPtr"
    proof -
      from m have "mac_serial_sector g = sector" by simp
      then show ?thesis
        using update8_bytes [OF assms(5), of "0x46" "0x55" "0x4A" "0x49"
            "ucast (drop_bit 24 sector)" "ucast (drop_bit 16 sector)"
            "ucast (drop_bit 8 sector)" "ucast sector"]
        by (simp add: h MAC_SERIAL_REPLY_TAG_def)
    qed
    show "mac_serial_state (session (is_mac_serial_io drive sector tagPtr blkPtr mode g))
              = MAC_SERIAL_WAIT_MAGIC_SECTOR"
      by (simp add: h)
  next
    assume n: "\<not> (mode = MAC_SERIAL_READ \<and> drive = mac_serial_drive g
              \<and> sector = mac_serial_sector g)"
    then have h: "is_mac_serial_io drive sector tagPtr blkPtr mode g
       = \<lparr>handled = False, tagBuf = tagPtr, blkBuf = blkPtr, session = ?g\<rparr>"
      unfolding io using handle_pending_other [of ?g mode drive sector tagPtr blkPtr] g by simp
    show "\<not> handled (is_mac_serial_io drive sector tagPtr blkPtr mode g)"
      by (simp add: h)
    show "mac_serial_state (session (is_mac_serial_io drive sector tagPtr blkPtr mode g))
              = MAC_SERIAL_WAIT_MAGIC_READ"
      by (simp add: h g)
  qed
qed

theorem C4_sector_pending_witness:
  "mac_serial_state
     (initial_globals\<lparr>mac_serial_state := MAC_SERIAL_WAIT_MAGIC_READ, mac_serial_drive := 1,
        mac_serial_sector := 100\<rparr>) = MAC_SERIAL_WAIT_MAGIC_READ
   \<and> (100 :: u32) \<noteq> MAC_SERIAL_NEGATIVE_LBA
   \<and> \<not> fst (mac_serial_detect_knock_sequence 100
       (initial_globals\<lparr>mac_serial_state := MAC_SERIAL_WAIT_MAGIC_READ, mac_serial_drive := 1,
          mac_serial_sector := 100\<rparr>))
   \<and> 12 \<le> length (replicate 12 (0 :: u8)) \<and> 8 \<le> length (replicate 512 (0 :: u8))
   \<and> handled (is_mac_serial_io 1 100 (replicate 12 0) (replicate 512 0) MAC_SERIAL_READ
       (initial_globals\<lparr>mac_serial_state := MAC_SERIAL_WAIT_MAGIC_READ, mac_serial_drive := 1,
          mac_serial_sector := 100\<rparr>))
   \<and> take 12 (tagBuf (is_mac_serial_io 1 100 (replicate 12 0) (replicate 512 0) MAC_SERIAL_READ
       (initial_globals\<lparr>mac_serial_state := MAC_SERIAL_WAIT_MAGIC_READ, mac_serial_drive := 1,
          mac_serial_sector := 100\<rparr>)))
       = MAC_SERIAL_REPLY_TAG @ [0, 0, 0, 8, 0, 0, 0, 0]
   \<and> mac_serial_state (session
       (is_mac_serial_io 1 100 (replicate 12 0) (replicate 512 0) MAC_SERIAL_READ
         (initial_globals\<lparr>mac_serial_state := MAC_SERIAL_WAIT_MAGIC_READ, mac_serial_drive := 1,
            mac_serial_sector := 100\<rparr>))) = MAC_SERIAL_WAIT_MAGIC_SECTOR
   \<and> \<not> handled (is_mac_serial_io 1 100 (replicate 12 0) (replicate 512 0) MAC_SERIAL_WRITE
       (initial_globals\<lparr>mac_serial_state := MAC_SERIAL_WAIT_MAGIC_READ, mac_serial_drive := 1,
          mac_serial_sector := 100\<rparr>))
   \<and> mac_serial_state (session
       (is_mac_serial_io 1 100 (replicate 12 0) (replicate 512 0) MAC_SERIAL_WRITE
         (initial_globals\<lparr>mac_serial_state := MAC_SERIAL_WAIT_MAGIC_READ, mac_serial_drive := 1,
            mac_serial_sector := 100\<rparr>))) = MAC_SERIAL_WAIT_MAGIC_READ"
proof -
  let ?g = "initial_globals\<lparr>mac_serial_state := MAC_SERIAL_WAIT_MAGIC_READ,
              mac_serial_drive := 1, mac_serial_sector := 100\<rparr>"
  have h: "mac_serial_state ?g = MAC_SERIAL_WAIT_MAGIC_READ"
    "(100 :: u32) \<noteq> MAC_SERIAL_NEGATIVE_LBA"
    "\<not> fst (mac_serial_detect_knock_sequence 100 ?g)"
    "12 \<le> length (replicate 12 (0 :: u8))" "8 \<le> length (replicate 512 (0 :: u8))"
    by (simp_all add: initial_globals_def MAC_SERIAL_NEGATIVE_LBA_def
        mac_serial_detect_knock_sequence_def MAC_SERIAL_KNOCK_SEQ_def)
  have d: "mac_serial_drive ?g = 1" "mac_serial_sector ?g = 100"
    by simp_all
  show ?thesis
    using h C4_sector_pending [OF h, of MAC_SERIAL_READ 1]
      C4_sector_pending [OF h, of MAC_SERIAL_WRITE 1]
    unfolding d by simp
qed

subsection \<open>Knocking\<close>

text \<open>
  Claim C9: when the access that completes the knock (sector 73 with the
  counter at 4) is a write, the knock stage puts the session in
  \<^verbatim>\<open>MAC_SERIAL_WAIT_MAGIC_WRITE\<close> with the calling drive claimed and the
  zero-length reply header in the tags, and the same call is then taken as the
  magic-sector write: it is handled, the magic sector is 73, the counter is 0
  and the phase is \<^verbatim>\<open>MAC_SERIAL_WAIT_MAGIC_READ\<close>.
\<close>

theorem C9_knock_completing_write:
  assumes "mac_serial_knock g = 4" and "12 \<le> length tagPtr"
  shows "mac_serial_state (snd (listen_for_knock drive 73 tagPtr g)) = MAC_SERIAL_WAIT_MAGIC_WRITE
       \<and> handled (is_mac_serial_io drive 73 tagPtr blkPtr MAC_SERIAL_WRITE g)
       \<and> tagBuf (is_mac_serial_io drive 73 tagPtr blkPtr MAC_SERIAL_WRITE g)
           = mac_serial_put_header tagPtr 0
       \<and> take 12 (tagBuf (is_mac_serial_io drive 73 tagPtr blkPtr MAC_SERIAL_WRITE g))
           = MAC_SERIAL_REPLY_TAG @ [0, 0, 0, 0, 0, 0, 0, 0]
       \<and> session (is_mac_serial_io drive 73 tagPtr blkPtr MAC_SERIAL_WRITE g)
           = g\<lparr>mac_serial_state := MAC_SERIAL_WAIT_MAGIC_READ, mac_serial_knock := 0,
               mac_serial_drive := drive, mac_serial_sector := 73\<rparr>"
  using assms
  by (simp add: is_mac_serial_io_regular listen_complete detect_complete
      handle_run_state_def MAC_SERIAL_NEGATIVE_LBA_def put_header_bytes length_bytes)

theorem C9_knock_completing_write_witness:
  "mac_serial_knock (initial_globals\<lparr>mac_serial_knock := 4\<rparr>) = 4
   \<and> 12 \<le> length (replicate 12 (0 :: u8))
   \<and> handled (is_mac_serial_io 3 73 (replicate 12 0) (replicate 512 0) MAC_SERIAL_WRITE
                 (initial_globals\<lparr>mac_serial_knock := 4\<rparr>))
   \<and> take 12 (tagBuf (is_mac_serial_io 3 73 (replicate 12 0) (replicate 512 0) MAC_SERIAL_WRITE
                 (initial_globals\<lparr>mac_serial_knock := 4\<rparr>)))
       = MAC_SERIAL_REPLY_TAG @ [0, 0, 0, 0, 0, 0, 0, 0]
   \<and> session (is_mac_serial_io 3 73 (replicate 12 0) (replicate 512 0) MAC_SERIAL_WRITE
                 (initial_globals\<lparr>mac_serial_knock := 4\<rparr>))
       = initial_globals\<lparr>mac_serial_knock := 4\<rparr>
           \<lparr>mac_serial_state := MAC_SERIAL_WAIT_MAGIC_READ, mac_serial_knock := 0,
            mac_serial_drive := 3, mac_serial_sector := 73\<rparr>"
proof -
  have h: "mac_serial_knock (initial_globals\<lparr>mac_serial_knock := 4\<rparr>) = 4"
    "12 \<le> length (replicate 12 (0 :: u8))"
    by simp_all
  show ?thesis
    using h C9_knock_completing_write [OF h, of 3 "replicate 512 0"]
    by blast
qed

text \<open>
  Claim C2 as stated: any call whose address differs from the next expected
  element resets the progress, and after any partial prefix the full sequence
  presented again from its first value completes the knock. Both fail from the
  initial state. After a read of sector 0 the counter is 1, and a sentinel
  access (whose address differs from the expected 70) leaves it at 1. And after
  the partial prefix \<open>0\<close>, the full sequence \<open>0, 70, 85, 74, 73\<close> leaves the
  session in \<^verbatim>\<open>MAC_SERIAL_WAIT_KNOCK\<close>: its first 0 is consumed as the mismatch
  that resets the counter, so the 70 that follows is compared with the first
  element.
\<close>

theorem C2_knock_counterexample:
  "mac_serial_knock
     (run initial_globals [sector_read 0 0, sector_read 0 MAC_SERIAL_NEGATIVE_LBA]) = 1
   \<and> mac_serial_state
       (run initial_globals
          [sector_read 0 0,
           sector_read 0 0, sector_read 0 70, sector_read 0 85, sector_read 0 74,
           sector_read 0 73]) = MAC_SERIAL_WAIT_KNOCK"
  by code_simp

text \<open>
  Claim C2, amended: from any session whose knock counter is 0 (the initial
  idle session among them), five consecutive accesses to the sectors
  \<open>0, 70, 85, 74, 73\<close> complete the knock: the knock stage of the fifth call
  sets the phase to \<^verbatim>\<open>MAC_SERIAL_WAIT_MAGIC_WRITE\<close>, and when that call returns
  the counter is 0, the calling drive is claimed, and the phase is
  \<^verbatim>\<open>MAC_SERIAL_WAIT_MAGIC_WRITE\<close> if the fifth access was a read and
  \<^verbatim>\<open>MAC_SERIAL_WAIT_MAGIC_READ\<close> if it was a write. An access whose address is
  not the sentinel and differs from the next expected element resets the
  counter to 0; a sentinel access leaves the counter as it is.
\<close>

theorem C2_knock_detection:
  "(mac_serial_knock g = 0 \<and> map acc_sector [a1, a2, a3, a4, a5] = [0, 70, 85, 74, 73] \<longrightarrow>
      mac_serial_state
        (snd (listen_for_knock (acc_drive a5) (acc_sector a5) (acc_tags a5)
               (run g [a1, a2, a3, a4]))) = MAC_SERIAL_WAIT_MAGIC_WRITE
      \<and> mac_serial_state (run g [a1, a2, a3, a4, a5])
          = (if acc_mode a5 = MAC_SERIAL_WRITE then MAC_SERIAL_WAIT_MAGIC_READ
             else MAC_SERIAL_WAIT_MAGIC_WRITE)
      \<and> mac_serial_drive (run g [a1, a2, a3, a4, a5]) = acc_drive a5
      \<and> mac_serial_knock (run g [a1, a2, a3, a4, a5]) = 0)
   \<and> (acc_sector a \<noteq> MAC_SERIAL_NEGATIVE_LBA
       \<and> acc_sector a \<noteq> word_of_int (MAC_SERIAL_KNOCK_SEQ ! unat (mac_serial_knock h)) \<longrightarrow>
      mac_serial_knock (access h a) = 0)
   \<and> (acc_sector a = MAC_SERIAL_NEGATIVE_LBA \<longrightarrow>
      mac_serial_knock (access h a) = mac_serial_knock h)"
proof (intro conjI impI)
  assume "acc_sector a \<noteq> MAC_SERIAL_NEGATIVE_LBA
       \<and> acc_sector a \<noteq> word_of_int (MAC_SERIAL_KNOCK_SEQ ! unat (mac_serial_knock h))"
  then show "mac_serial_knock (access h a) = 0"
    by (simp add: access_knock detect_mismatch)
next
  assume "acc_sector a = MAC_SERIAL_NEGATIVE_LBA"
  then show "mac_serial_knock (access h a) = mac_serial_knock h"
    by (rule access_sentinel_knock)
next
  assume a: "mac_serial_knock g = 0 \<and> map acc_sector [a1, a2, a3, a4, a5] = [0, 70, 85, 74, 73]"
  then have k4: "mac_serial_knock (run g [a1, a2, a3, a4]) = 4"
    by (simp add: run4)
  have r: "run g [a1, a2, a3, a4, a5] = access (run g [a1, a2, a3, a4]) a5"
    using run_snoc [of g "[a1, a2, a3, a4]" a5] by simp
  from a have s5: "acc_sector a5 = 73" by simp
  show "mac_serial_state
        (snd (listen_for_knock (acc_drive a5) (acc_sector a5) (acc_tags a5)
               (run g [a1, a2, a3, a4]))) = MAC_SERIAL_WAIT_MAGIC_WRITE"
    using k4 s5 by (simp add: listen_complete detect_complete)
  show "mac_serial_state (run g [a1, a2, a3, a4, a5])
          = (if acc_mode a5 = MAC_SERIAL_WRITE then MAC_SERIAL_WAIT_MAGIC_READ
             else MAC_SERIAL_WAIT_MAGIC_WRITE)"
    unfolding r using k4 s5 by (simp add: access_complete)
  show "mac_serial_drive (run g [a1, a2, a3, a4, a5]) = acc_drive a5"
    unfolding r using k4 s5 by (simp add: access_complete)
  show "mac_serial_knock (run g [a1, a2, a3, a4, a5]) = 0"
    unfolding r using k4 s5 by (simp add: access_complete)
qed

theorem C2_knock_detection_witness:
  "mac_serial_knock initial_globals = 0
   \<and> map acc_sector [sector_read 1 0, sector_read 1 70, sector_read 1 85, sector_read 1 74,
                      sector_read 1 73] = [0, 70, 85, 74, 73]
   \<and> mac_serial_state
       (run initial_globals [sector_read 1 0, sector_read 1 70, sector_read 1 85,
          sector_read 1 74, sector_read 1 73]) = MAC_SERIAL_WAIT_MAGIC_WRITE
   \<and> mac_serial_drive
       (run initial_globals [sector_read 1 0, sector_read 1 70, sector_read 1 85,
          sector_read 1 74, sector_read 1 73]) = 1
   \<and> acc_sector (sector_read 1 5) \<noteq> MAC_SERIAL_NEGATIVE_LBA
   \<and> acc_sector (sector_read 1 5)
       \<noteq> word_of_int (MAC_SERIAL_KNOCK_SEQ ! unat (mac_serial_knock initial_globals))
   \<and> mac_serial_knock (access initial_globals (sector_read 1 5)) = 0
   \<and> acc_sector (sector_read 1 MAC_SERIAL_NEGATIVE_LBA) = MAC_SERIAL_NEGATIVE_LBA
   \<and> mac_serial_knock (access initial_globals (sector_read 1 MAC_SERIAL_NEGATIVE_LBA))
       = mac_serial_knock initial_globals"
proof -
  have k: "mac_serial_knock initial_globals = 0"
    by (simp add: initial_globals_def)
  have s: "map acc_sector [sector_read 1 0, sector_read 1 70, sector_read 1 85,
             sector_read 1 74, sector_read 1 73] = [0, 70, 85, 74, 73]"
    "acc_mode (sector_read 1 73) = MAC_SERIAL_READ" "acc_drive (sector_read 1 73) = 1"
    by (simp_all add: sector_read_def)
  have m: "acc_sector (sector_read 1 5) \<noteq> MAC_SERIAL_NEGATIVE_LBA"
    "acc_sector (sector_read 1 5)
       \<noteq> word_of_int (MAC_SERIAL_KNOCK_SEQ ! unat (mac_serial_knock initial_globals))"
    "acc_sector (sector_read 1 MAC_SERIAL_NEGATIVE_LBA) = MAC_SERIAL_NEGATIVE_LBA"
    by (simp_all add: sector_read_def k MAC_SERIAL_NEGATIVE_LBA_def MAC_SERIAL_KNOCK_SEQ_def)
  show ?thesis
    using k s m
      C2_knock_detection [of initial_globals "sector_read 1 0" "sector_read 1 70"
        "sector_read 1 85" "sector_read 1 74" "sector_read 1 73" "sector_read 1 5"
        initial_globals]
      C2_knock_detection [of initial_globals "sector_read 1 0" "sector_read 1 70"
        "sector_read 1 85" "sector_read 1 74" "sector_read 1 73"
        "sector_read 1 MAC_SERIAL_NEGATIVE_LBA" initial_globals]
    by simp
qed

text \<open>
  Claim C10: in every session reached from the initial state by any sequence
  of calls to \<open>is_mac_serial_io\<close>, the knock counter is below 5, the length of
  the knock sequence. Every prefix of a sequence of calls is such a sequence, so
  the counter is in range before and after every call, and the index that
  \<open>mac_serial_detect_knock_sequence\<close> reads is within the array.
\<close>

theorem C10_knock_counter_in_bounds:
  "unat (mac_serial_knock (run initial_globals accs)) < length MAC_SERIAL_KNOCK_SEQ"
  using run_knock_bound [of initial_globals accs]
  by (simp add: initial_globals_def MAC_SERIAL_KNOCK_SEQ_def)


end
